theory Spec2Isabelle
  imports Complex_Main "HOL-Library.AList"
begin

section \<open>Python values and strings\<close>

text \<open>
  A Python float is kept abstract: the finite values are idealised as the real number they
  stand for (binary rounding is not modelled), next to the two infinities and NaN.
  The cells that pandas hands to the helpers are \<open>None\<close>, floats, integers, booleans
  and strings.
\<close>

datatype pyfloat = Finite real | PosInf | NegInf | NaN

datatype pyval = PyNone | PyFloat pyfloat | PyInt int | PyBool bool | PyStr string

text \<open>
  A character stands for the code point of the same number (U+0000 to U+00FF).
  \<open>is_space\<close> is the whitespace of \<open>str.strip()\<close> in that range, \<open>lower_char\<close> the
  lower-casing of \<open>str.lower()\<close> in that range (A-Z and the Latin-1 capitals,
  U+00D7 being the multiplication sign).
\<close>

definition is_space :: "char \<Rightarrow> bool" where
  "is_space c \<longleftrightarrow>
     (of_char c :: nat) \<in> {9, 10, 11, 12, 13, 28, 29, 30, 31, 32, 133, 160}"

definition lower_char :: "char \<Rightarrow> char" where
  "lower_char c =
     (let n = (of_char c :: nat) in
      if (65 \<le> n \<and> n \<le> 90) \<or> (192 \<le> n \<and> n \<le> 222 \<and> n \<noteq> 215)
      then char_of (n + 32) else c)"

definition strip :: "string \<Rightarrow> string" where
  "strip s = rev (dropWhile is_space (rev (dropWhile is_space s)))"

definition lower :: "string \<Rightarrow> string" where
  "lower s = map lower_char s"

text \<open>\<open>s.replace(",", ".")\<close>\<close>

definition replace_comma :: "string \<Rightarrow> string" where
  "replace_comma s = map (\<lambda>c. if c = CHR '','' then CHR ''.'' else c) s"

definition is_digit :: "char \<Rightarrow> bool" where
  "is_digit c \<longleftrightarrow> c \<in> set ''0123456789''"

definition digit_char :: "nat \<Rightarrow> char" where
  "digit_char d = ''0123456789'' ! d"

fun str_nat :: "nat \<Rightarrow> string" where
  "str_nat n = (if n < 10 then [digit_char n] else str_nat (n div 10) @ [digit_char (n mod 10)])"

declare str_nat.simps [simp del]

definition str_int :: "int \<Rightarrow> string" where
  "str_int i = (if i < 0 then CHR ''-'' # str_nat (nat (- i)) else str_nat (nat i))"

section \<open>The library and the storage the routine runs against\<close>

text \<open>
  A row of \<open>electrical_data\<close> as the routine builds it:
  \<open>(system_id, timestamp, power_kw, voltage_v, current_a, energy_kwh, status)\<close>.
\<close>

type_synonym db_row =
  "int \<times> string \<times> pyfloat option \<times> pyfloat option \<times> pyfloat option \<times> pyfloat option
     \<times> string option"

text \<open>
  What the routine calls and does not define is a parameter:
  \<^item> \<open>pandas_available\<close>: whether \<open>import pandas\<close> succeeded (\<open>pd is not None\<close>);
  \<^item> \<open>float_parse\<close>: the builtin \<open>float(s)\<close> on a string, \<open>None\<close> when it raises
    \<open>ValueError\<close>;
  \<^item> \<open>float_str\<close>: the builtin \<open>str(x)\<close> on a float;
  \<^item> \<open>to_datetime\<close>: \<open>pd.to_datetime(column, errors="coerce")\<close> followed by
    \<open>strftime("%Y-%m-%d %H:%M:%S")\<close>, for one cell of the column it is given
    (the column is an argument because pandas may infer the format from it);
    \<open>None\<close> is \<open>NaT\<close>;
  \<^item> \<open>db_insert\<close>: one \<open>INSERT\<close> of \<open>executemany\<close> given the committed and the
    pending rows, \<open>Some msg\<close> when the storage raises;
  \<^item> \<open>db_commit\<close>: \<open>conn.commit()\<close>, \<open>Some msg\<close> when it raises.
\<close>

record env =
  pandas_available :: bool
  float_parse :: "string \<Rightarrow> pyfloat option"
  float_str :: "pyfloat \<Rightarrow> string"
  to_datetime :: "pyval list \<Rightarrow> pyval \<Rightarrow> string option"
  db_insert :: "db_row list \<Rightarrow> db_row list \<Rightarrow> db_row \<Rightarrow> string option"
  db_commit :: "db_row list \<Rightarrow> db_row list \<Rightarrow> string option"

text \<open>\<open>str(x)\<close> on a cell.\<close>

fun py_str :: "env \<Rightarrow> pyval \<Rightarrow> string" where
  "py_str E PyNone = ''None''"
| "py_str E (PyFloat f) = float_str E f"
| "py_str E (PyInt i) = str_int i"
| "py_str E (PyBool b) = (if b then ''True'' else ''False'')"
| "py_str E (PyStr s) = s"

section \<open>The helpers \<open>_safe_float\<close> and \<open>_safe_str\<close>\<close>

datatype exn = ValueError

text \<open>
  The body of the \<open>try\<close> block of \<open>_safe_float\<close>: \<open>Inl\<close> is an exception raised
  inside it, \<open>Inr\<close> the value of its \<open>return\<close>.
\<close>

fun safe_float_try :: "env \<Rightarrow> pyval \<Rightarrow> exn + pyfloat option" where
  "safe_float_try E PyNone = Inr None"
| "safe_float_try E (PyFloat f) = Inr (Some f)"
| "safe_float_try E x =
     (let s = strip (py_str E x) in
      if s = [] \<or> lower s \<in> {''nan'', ''none'', ''null''} then Inr None
      else (let s' = replace_comma s in
            case float_parse E s' of None \<Rightarrow> Inl ValueError | Some v \<Rightarrow> Inr (Some v)))"

text \<open>\<open>_safe_float\<close>: the \<open>try\<close> block under \<open>except Exception: return None\<close>.\<close>

definition safe_float :: "env \<Rightarrow> pyval \<Rightarrow> pyfloat option" where
  "safe_float E x = (case safe_float_try E x of Inl e \<Rightarrow> None | Inr r \<Rightarrow> r)"

text \<open>\<open>_safe_str\<close>\<close>

definition safe_str :: "env \<Rightarrow> pyval \<Rightarrow> string option" where
  "safe_str E x =
     (if x = PyNone then None
      else (let s = strip (py_str E x) in if s \<noteq> [] then Some s else None))"

text \<open>
  The shape \<open>^\s*-?\d+([.,]\d+)?\s*$\<close> of the specification, matched from left to right
  (the character classes of adjacent parts are disjoint, so no backtracking is needed).
  \<open>\s\<close> is the whitespace above, \<open>\d\<close> the digits 0 to 9, the only decimal digits
  below U+0100.
\<close>

definition spec_decimal_shape :: "string \<Rightarrow> bool" where
  "spec_decimal_shape s =
     (let s1 = dropWhile is_space s;
          s2 = (case s1 of c # r \<Rightarrow> if c = CHR ''-'' then r else s1 | [] \<Rightarrow> s1);
          r1 = dropWhile is_digit s2
      in takeWhile is_digit s2 \<noteq> [] \<and>
         (list_all is_space r1 \<or>
          (case r1 of
             c # r2 \<Rightarrow> (c = CHR ''.'' \<or> c = CHR '','') \<and> takeWhile is_digit r2 \<noteq> [] \<and>
                       list_all is_space (dropWhile is_digit r2)
           | [] \<Rightarrow> False)))"

text \<open>The same shape without the surrounding whitespace and with a period only.\<close>

definition plain_decimal :: "string \<Rightarrow> bool" where
  "plain_decimal t =
     (let t2 = (case t of c # r \<Rightarrow> if c = CHR ''-'' then r else t | [] \<Rightarrow> t);
          r1 = dropWhile is_digit t2
      in takeWhile is_digit t2 \<noteq> [] \<and>
         (r1 = [] \<or>
          (case r1 of c # r2 \<Rightarrow> c = CHR ''.'' \<and> r2 \<noteq> [] \<and> list_all is_digit r2
           | [] \<Rightarrow> False)))"

section \<open>The CSV file, the column mapping and the connection\<close>

text \<open>
  A table as pandas delivers it: the header names and the rows of typed cells, each row
  aligned with the headers. It stands for the file behind \<open>csv_path\<close> and for every
  chunk \<open>chunk_df\<close> read from it.
\<close>

record frame =
  columns :: "string list"
  data :: "pyval list list"

text \<open>
  \<open>chunk_df[c]\<close> for one row: the cell under the header \<open>c\<close>. A row shorter than the
  header list is padded with NaN by the reader.
\<close>

definition cell_at :: "string list \<Rightarrow> pyval list \<Rightarrow> string \<Rightarrow> pyval" where
  "cell_at cols row c = (case map_of (zip cols row) c of Some v \<Rightarrow> v | None \<Rightarrow> PyFloat NaN)"

text \<open>
  \<open>pd.read_csv(csv_path, chunksize=chunk_size, iterator=True)\<close>: successive chunks of
  at most \<open>chunk_size\<close> rows in source order; a file with headers and no row gives one
  empty chunk.
\<close>

function chunk_rows :: "nat \<Rightarrow> 'a list \<Rightarrow> 'a list list" where
  "chunk_rows n xs = (if n = 0 \<or> xs = [] then [] else take n xs # chunk_rows n (drop n xs))"
  by pat_completeness auto
termination
  by (relation "measure (\<lambda>(n, xs). length xs)") auto

declare chunk_rows.simps [simp del]

definition read_csv :: "frame \<Rightarrow> nat \<Rightarrow> frame list" where
  "read_csv f chunk_size =
     (if data f = [] then [f]
      else map (\<lambda>rs. \<lparr>columns = columns f, data = rs\<rparr>) (chunk_rows chunk_size (data f)))"

text \<open>The dictionary \<open>default_map\<close>, in the order of the literal.\<close>

definition default_map :: "(string \<times> string) list" where
  "default_map =
     [(''timestamp'', ''timestamp''), (''time'', ''timestamp''), (''datetime'', ''timestamp''),
      (''power_kw'', ''power_kw''), (''power_kw_avg'', ''power_kw''), (''power'', ''power_kw''),
      (''power_kW'', ''power_kw''),
      (''voltage_v'', ''voltage_v''), (''voltage'', ''voltage_v''),
      (''current_a'', ''current_a''), (''current'', ''current_a''),
      (''energy_kwh'', ''energy_kwh''), (''energy'', ''energy_kwh''),
      (''status'', ''status'')]"

text \<open>
  \<open>combined_map\<close>: the argument \<open>col_mappings\<close> is \<open>None\<close> or the items of a
  dictionary; an empty dictionary is falsy. \<open>{**default_map, **col_mappings}\<close> keeps
  the entry of \<open>col_mappings\<close> where both have the key.
\<close>

definition combined_map :: "(string \<times> string) list option \<Rightarrow> (string \<rightharpoonup> string)" where
  "combined_map col_mappings =
     (case col_mappings of
        None \<Rightarrow> map_of default_map
      | Some m \<Rightarrow> if m = [] then map_of default_map else map_of default_map ++ map_of m)"

definition target_names :: "string set" where
  "target_names =
     {''timestamp'', ''power_kw'', ''voltage_v'', ''current_a'', ''energy_kwh'', ''status''}"

text \<open>The body of the loop over \<open>chunk_df.columns\<close> for one (trimmed) header.\<close>

definition resolve :: "(string \<rightharpoonup> string) \<Rightarrow> string \<Rightarrow> string option" where
  "resolve cm c =
     (let l = lower c in
      case cm l of Some t \<Rightarrow> Some t
      | None \<Rightarrow> if l \<in> target_names then Some l else None)"

text \<open>
  \<open>col_map_existing\<close>: a dictionary filled in header order; \<open>AList.update\<close> is the
  assignment \<open>d[k] = v\<close> (in place for a key already there, at the end otherwise).
\<close>

fun col_map_existing ::
  "(string \<rightharpoonup> string) \<Rightarrow> string list \<Rightarrow> (string \<times> string) list \<Rightarrow> (string \<times> string) list"
where
  "col_map_existing cm [] acc = acc"
| "col_map_existing cm (c # cs) acc =
     col_map_existing cm cs
       (case resolve cm c of Some t \<Rightarrow> AList.update c t acc | None \<Rightarrow> acc)"

text \<open>
  \<open>df_to_insert[target_col] = chunk_df[src_col]\<close> runs once per entry of
  \<open>col_map_existing\<close> in order, so the column left under a target is that of the last
  entry with this target; the five optional targets without an entry get the column of
  \<open>None\<close>. \<open>source_of\<close> finds that entry, \<open>target_cell\<close> reads the cell of one row.
\<close>

definition source_of :: "(string \<times> string) list \<Rightarrow> string \<Rightarrow> string option" where
  "source_of cme t = map_option fst (List.find (\<lambda>(src, tgt). tgt = t) (rev cme))"

definition target_cell ::
  "string list \<Rightarrow> (string \<times> string) list \<Rightarrow> pyval list \<Rightarrow> string \<Rightarrow> pyval" where
  "target_cell cols cme row t =
     (case source_of cme t of Some src \<Rightarrow> cell_at cols row src | None \<Rightarrow> PyNone)"

text \<open>
  The rows handed to \<open>executemany\<close>: the timestamp column is parsed as a whole, the rows
  left with \<open>NaT\<close> are dropped (\<open>dropna\<close>), the others are coerced field by field.
\<close>

definition build_rows ::
  "env \<Rightarrow> int \<Rightarrow> string list \<Rightarrow> (string \<times> string) list \<Rightarrow> pyval list list \<Rightarrow> db_row list"
where
  "build_rows E system_id cols cme rows =
     (let ts_col = map (\<lambda>row. target_cell cols cme row ''timestamp'') rows in
      List.map_filter
        (\<lambda>row. case to_datetime E ts_col (target_cell cols cme row ''timestamp'') of
                 None \<Rightarrow> None
               | Some ts \<Rightarrow>
                   Some (system_id, ts,
                         safe_float E (target_cell cols cme row ''power_kw''),
                         safe_float E (target_cell cols cme row ''voltage_v''),
                         safe_float E (target_cell cols cme row ''current_a''),
                         safe_float E (target_cell cols cme row ''energy_kwh''),
                         safe_str E (target_cell cols cme row ''status'')))
        rows)"

text \<open>The messages printed by the routine.\<close>

datatype msg =
  Dropped nat          \<comment> \<open>Se descartaron n filas con timestamp invalido en chunk actual\<close>
| Inserted nat nat     \<comment> \<open>Insertadas n filas (acumulado: total)\<close>
| Finished nat         \<comment> \<open>Ingestion terminada. Total filas insertadas: total\<close>

text \<open>
  The state the routine works on: the table \<open>electrical_data\<close> (the committed rows and
  the rows of the open transaction), whether the connection is open, the printed
  messages and the counter \<open>total_inserted\<close>. The cursor \<open>cur\<close> belongs to the
  connection; the routine never closes it on its own.
\<close>

record state =
  committed :: "db_row list"
  pending :: "db_row list"
  conn_open :: bool
  out :: "msg list"
  total_inserted :: nat

datatype error =
  ImportError              \<comment> \<open>pandas is missing\<close>
| FileNotFoundError        \<comment> \<open>csv_path does not exist\<close>
| ChunksizeError           \<comment> \<open>ValueError of read_csv: chunksize below 1\<close>
| SchemaError              \<comment> \<open>ValueError: no recognised timestamp column\<close>
| FrameError               \<comment> \<open>ValueError of pandas: a resolved header names two columns\<close>
| PersistenceError string  \<comment> \<open>RuntimeError wrapping the storage failure\<close>

text \<open>
  \<open>cur.executemany\<close>: the rows are inserted one by one into the open transaction; the
  first refused row raises, with the rows before it still pending.
\<close>

fun executemany :: "env \<Rightarrow> db_row list \<Rightarrow> state \<Rightarrow> (string \<times> state) + state" where
  "executemany E [] st = Inr st"
| "executemany E (r # rs) st =
     (case db_insert E (committed st) (pending st) r of
        Some e \<Rightarrow> Inl (e, st)
      | None \<Rightarrow> executemany E rs (st\<lparr>pending := pending st @ [r]\<rparr>))"

definition rollback :: "state \<Rightarrow> state" where
  "rollback st = st\<lparr>pending := []\<rparr>"

text \<open>The \<open>try\<close> statement around the insertion of one chunk.\<close>

definition insert_chunk :: "env \<Rightarrow> db_row list \<Rightarrow> state \<Rightarrow> error option \<times> state" where
  "insert_chunk E rows st =
     (case executemany E rows st of
        Inl (e, st1) \<Rightarrow> (Some (PersistenceError e), rollback st1)
      | Inr st1 \<Rightarrow>
          (case db_commit E (committed st1) (pending st1) of
             Some e \<Rightarrow> (Some (PersistenceError e), rollback st1)
           | None \<Rightarrow>
               (let total = total_inserted st1 + length rows in
                (None, st1\<lparr>committed := committed st1 @ pending st1, pending := [],
                           total_inserted := total,
                           out := out st1 @ [Inserted (length rows) total]\<rparr>))))"

text \<open>
  One iteration of \<open>for chunk_df in df_iter\<close>. The first test is the check for a
  timestamp column. The second stands for the \<open>ValueError\<close> that pandas raises in
  \<open>df_to_insert[target_col] = chunk_df[src_col]\<close> when two headers are equal after
  trimming, so that \<open>chunk_df[src_col]\<close> selects two columns.
\<close>

definition process_chunk ::
  "env \<Rightarrow> int \<Rightarrow> (string \<rightharpoonup> string) \<Rightarrow> frame \<Rightarrow> state \<Rightarrow> error option \<times> state" where
  "process_chunk E system_id cm chunk_df st =
     (let cols = map strip (columns chunk_df);
          cme = col_map_existing cm cols []
      in if \<not> list_ex (\<lambda>(src, tgt). tgt = ''timestamp'') cme then (Some SchemaError, st)
         else if list_ex (\<lambda>(src, tgt). count_list cols src \<noteq> 1) cme then (Some FrameError, st)
         else
           (let rows = build_rows E system_id cols cme (data chunk_df);
                n_before = length (data chunk_df);
                n_after = length rows;
                st1 = (if n_after < n_before
                       then st\<lparr>out := out st @ [Dropped (n_before - n_after)]\<rparr> else st)
            in insert_chunk E rows st1))"

fun ingest_loop ::
  "env \<Rightarrow> int \<Rightarrow> (string \<rightharpoonup> string) \<Rightarrow> frame list \<Rightarrow> state \<Rightarrow> error option \<times> state" where
  "ingest_loop E system_id cm [] st = (None, st)"
| "ingest_loop E system_id cm (chunk_df # rest) st =
     (case process_chunk E system_id cm chunk_df st of
        (Some e, st1) \<Rightarrow> (Some e, st1)
      | (None, st1) \<Rightarrow> ingest_loop E system_id cm rest st1)"

text \<open>
  \<open>ingest_electrical_csv\<close>. \<open>db\<close> is the content of \<open>electrical_data\<close> in the database
  at \<open>db_path\<close>, \<open>csv\<close> the table in the file at \<open>csv_path\<close> (\<open>None\<close> when the path
  does not exist). The result is the exception raised (\<open>Inl\<close>) or the value returned
  (\<open>Inr\<close>), with the state the call leaves behind. The function has no \<open>return\<close>
  statement, so a call that ends normally returns \<open>None\<close>. \<open>chunk_size\<close> is a natural
  number, 0 standing for the sizes below 1, which \<open>read_csv\<close> refuses before the
  connection is opened.
\<close>

definition ingest_electrical_csv ::
  "env \<Rightarrow> db_row list \<Rightarrow> int \<Rightarrow> frame option \<Rightarrow> string \<Rightarrow> (string \<times> string) list option
     \<Rightarrow> nat \<Rightarrow> (error + pyval) \<times> state" where
  "ingest_electrical_csv E db system_id csv timestamp_col col_mappings chunk_size =
     (let st0 = \<lparr>committed = db, pending = [], conn_open = False, out = [],
                 total_inserted = 0\<rparr>
      in if \<not> pandas_available E then (Inl ImportError, st0)
         else (case csv of
            None \<Rightarrow> (Inl FileNotFoundError, st0)
          | Some f \<Rightarrow>
              (let cm = combined_map col_mappings in
               if chunk_size = 0 then (Inl ChunksizeError, st0)
               else
                 (let df_iter = read_csv f chunk_size;
                      st1 = st0\<lparr>conn_open := True\<rparr>
                  in case ingest_loop E system_id cm df_iter st1 of
                       (Some e, st2) \<Rightarrow> (Inl e, st2)
                     | (None, st2) \<Rightarrow>
                         (Inr PyNone,
                          st2\<lparr>conn_open := False,
                              out := out st2 @ [Finished (total_inserted st2)]\<rparr>)))))"

section \<open>Notions used to state the properties\<close>

text \<open>
  The rows one chunk hands to \<open>executemany\<close>, as \<open>process_chunk\<close> computes them.
\<close>

definition rows_of_chunk :: "env \<Rightarrow> int \<Rightarrow> (string \<rightharpoonup> string) \<Rightarrow> frame \<Rightarrow> db_row list" where
  "rows_of_chunk E system_id cm chunk_df =
     build_rows E system_id (map strip (columns chunk_df))
       (col_map_existing cm (map strip (columns chunk_df)) []) (data chunk_df)"

text \<open>
  The column that ends under \<open>timestamp\<close> in \<open>df_to_insert\<close>, and the number of its
  cells that \<open>to_datetime\<close> leaves as \<open>NaT\<close>: the rows of the chunk whose timestamp
  fails to parse.
\<close>

definition timestamp_cells :: "(string \<rightharpoonup> string) \<Rightarrow> frame \<Rightarrow> pyval list" where
  "timestamp_cells cm chunk_df =
     map (\<lambda>row. target_cell (map strip (columns chunk_df))
                  (col_map_existing cm (map strip (columns chunk_df)) []) row ''timestamp'')
       (data chunk_df)"

definition unparseable :: "env \<Rightarrow> (string \<rightharpoonup> string) \<Rightarrow> frame \<Rightarrow> nat" where
  "unparseable E cm chunk_df =
     length (filter (\<lambda>x. to_datetime E (timestamp_cells cm chunk_df) x = None)
               (timestamp_cells cm chunk_df))"

text \<open>
  The headers pass both checks made before the rows are built: some header resolves to
  \<open>timestamp\<close>, and every resolved header names one column only.
\<close>

definition headers_ok :: "(string \<rightharpoonup> string) \<Rightarrow> string list \<Rightarrow> bool" where
  "headers_ok cm hs =
     (let cols = map strip hs; cme = col_map_existing cm cols []
      in list_ex (\<lambda>(src, tgt). tgt = ''timestamp'') cme \<and>
         list_all (\<lambda>(src, tgt). count_list cols src = 1) cme)"

text \<open>
  The failure of the transaction that inserts \<open>rows\<close> on top of the committed rows
  \<open>c\<close>: the message of the first refused \<open>INSERT\<close>, or else of the refused commit.
\<close>

fun insert_refusal :: "env \<Rightarrow> db_row list \<Rightarrow> db_row list \<Rightarrow> db_row list \<Rightarrow> string option" where
  "insert_refusal E c p [] = None"
| "insert_refusal E c p (r # rs) =
     (case db_insert E c p r of Some m \<Rightarrow> Some m | None \<Rightarrow> insert_refusal E c (p @ [r]) rs)"

definition txn_failure :: "env \<Rightarrow> db_row list \<Rightarrow> db_row list \<Rightarrow> string option" where
  "txn_failure E c rows =
     (case insert_refusal E c [] rows of Some m \<Rightarrow> Some m | None \<Rightarrow> db_commit E c rows)"

text \<open>The counts of the messages about dropped rows, in the order printed.\<close>

definition dropped_counts :: "msg list \<Rightarrow> nat list" where
  "dropped_counts ms = List.map_filter (\<lambda>m. case m of Dropped k \<Rightarrow> Some k | _ \<Rightarrow> None) ms"

text \<open>
  The state after the message about dropped rows, and after the commit of a chunk.
\<close>

definition note_dropped :: "env \<Rightarrow> (string \<rightharpoonup> string) \<Rightarrow> frame \<Rightarrow> state \<Rightarrow> state" where
  "note_dropped E cm chunk_df st =
     (if 0 < unparseable E cm chunk_df
      then st\<lparr>out := out st @ [Dropped (unparseable E cm chunk_df)]\<rparr> else st)"

definition committed_chunk :: "env \<Rightarrow> int \<Rightarrow> (string \<rightharpoonup> string) \<Rightarrow> frame \<Rightarrow> state \<Rightarrow> state" where
  "committed_chunk E system_id cm chunk_df st =
     (let rows = rows_of_chunk E system_id cm chunk_df;
          st1 = note_dropped E cm chunk_df st
      in st1\<lparr>committed := committed st @ rows,
              total_inserted := total_inserted st + length rows,
              out := out st1 @ [Inserted (length rows) (total_inserted st + length rows)]\<rparr>)"

section \<open>A sample environment\<close>

text \<open>
  One concrete library and storage, to run the model on inputs: \<open>float\<close> restricted to
  plain decimals, timestamps accepted when they already have the form
  \<open>YYYY-MM-DD HH:MM:SS\<close>, and a storage that refuses the rows whose status is
  \<open>reject\<close>.
\<close>

definition digit_val :: "char \<Rightarrow> nat" where
  "digit_val c = of_char c - 48"

definition nat_of_digits :: "string \<Rightarrow> nat" where
  "nat_of_digits ds = foldl (\<lambda>a c. 10 * a + digit_val c) 0 ds"

definition sample_float :: "string \<Rightarrow> pyfloat option" where
  "sample_float t =
     (if \<not> plain_decimal t then None
      else (let neg = (t \<noteq> [] \<and> hd t = CHR ''-'');
                t2 = (if neg then tl t else t);
                ip = takeWhile is_digit t2;
                fp = drop 1 (dropWhile is_digit t2);
                v = real (nat_of_digits ip) + real (nat_of_digits fp) / 10 ^ length fp
            in Some (Finite (if neg then - v else v))))"

definition sample_datetime :: "pyval list \<Rightarrow> pyval \<Rightarrow> string option" where
  "sample_datetime col x =
     (case x of
        PyStr s \<Rightarrow>
          if length s = 19 \<and>
             list_all (\<lambda>(i, c). if i \<in> {4, 7} then c = CHR ''-''
                               else if i = 10 then c = CHR '' ''
                               else if i \<in> {13, 16} then c = CHR '':''
                               else is_digit c) (zip [0 ..< 19] s)
          then Some s else None
      | _ \<Rightarrow> None)"

definition sample_insert :: "db_row list \<Rightarrow> db_row list \<Rightarrow> db_row \<Rightarrow> string option" where
  "sample_insert done todo r =
     (case r of (sid, ts, p, v, c, e, st) \<Rightarrow>
        if st = Some ''reject'' then Some ''constraint failed'' else None)"

text \<open>
  \<open>str\<close> of a float: right for NaN, the infinities and the whole numbers below
  \<open>1e16\<close>, which is all the sample runs need.
\<close>

definition sample_float_str :: "pyfloat \<Rightarrow> string" where
  "sample_float_str f =
     (case f of NaN \<Rightarrow> ''nan'' | PosInf \<Rightarrow> ''inf'' | NegInf \<Rightarrow> ''-inf''
      | Finite r \<Rightarrow> str_int \<lfloor>r\<rfloor> @ ''.0'')"

definition sample_env :: env where
  "sample_env =
     \<lparr>pandas_available = True, float_parse = sample_float, float_str = sample_float_str,
      to_datetime = sample_datetime, db_insert = sample_insert,
      db_commit = (\<lambda>done todo. None)\<rparr>"

text \<open>
  Sample files: three rows of which one has no valid date; five rows of which the fourth
  is refused by the sample storage; a file without a time column; a file whose power
  column is named by an override key written with a capital letter.
\<close>

definition sample_csv :: frame where
  "sample_csv =
     \<lparr>columns = [''datetime'', '' Power '', ''voltage''],
      data = [[PyStr ''2024-01-01 00:00:00'', PyStr ''1,5'', PyInt 230],
              [PyStr ''not-a-date'', PyFloat (Finite 2), PyInt 231],
              [PyStr ''2024-01-01 00:10:00'', PyFloat NaN, PyStr '' nan '']]\<rparr>"

definition sample_csv5 :: frame where
  "sample_csv5 =
     \<lparr>columns = [''time'', ''power'', ''status''],
      data = [[PyStr ''2024-01-01 00:00:00'', PyInt 1, PyStr ''ok''],
              [PyStr ''2024-01-01 00:10:00'', PyInt 2, PyStr ''ok''],
              [PyStr ''2024-01-01 00:20:00'', PyInt 3, PyStr ''ok''],
              [PyStr ''2024-01-01 00:30:00'', PyInt 4, PyStr ''reject''],
              [PyStr ''2024-01-01 00:40:00'', PyInt 5, PyStr ''ok'']]\<rparr>"

definition sample_no_time :: frame where
  "sample_no_time =
     \<lparr>columns = [''fecha'', ''power''],
      data = [[PyStr ''2024-01-01 00:00:00'', PyInt 1]]\<rparr>"

definition sample_override :: frame where
  "sample_override =
     \<lparr>columns = [''timestamp'', ''Potencia''],
      data = [[PyStr ''2024-01-01 00:00:00'', PyFloat (Finite 5)]]\<rparr>"

text \<open>
  A file with a status column whose second row has an empty status cell: the reader
  delivers the missing cell as the float NaN.
\<close>

definition sample_status :: frame where
  "sample_status =
     \<lparr>columns = [''timestamp'', ''status''],
      data = [[PyStr ''2024-01-01 00:00:00'', PyStr '' ok ''],
              [PyStr ''2024-01-01 00:10:00'', PyFloat NaN]]\<rparr>"

text \<open>The sample environment with a storage that accepts every row.\<close>

definition accepting_env :: env where
  "accepting_env = sample_env\<lparr>db_insert := (\<lambda>done todo r. None)\<rparr>"

section \<open>Trimming and the decimal shape\<close>

lemma digit_not_space: "is_digit c \<Longrightarrow> \<not> is_space c"
  by (auto simp: is_digit_def is_space_def)

lemma digit_facts: "is_digit c \<Longrightarrow> c \<noteq> CHR ''-'' \<and> c \<noteq> CHR '','' \<and> c \<noteq> CHR ''.'' \<and> lower_char c = c \<and> c \<noteq> CHR ''n''"
  by (auto simp: is_digit_def lower_char_def)

lemma minus_facts: "\<not> is_space CHR ''-'' \<and> \<not> is_digit CHR ''-'' \<and> lower_char CHR ''-'' = CHR ''-'' \<and> \<not> is_digit CHR ''.'' \<and> \<not> is_digit CHR '',''"
  by (simp add: is_digit_def lower_char_def is_space_def)

lemma rstrip_keep:
  assumes "xs \<noteq> []" "\<not> is_space (last xs)" "list_all is_space ws"
  shows "rev (dropWhile is_space (rev (xs @ ws))) = xs"
proof -
  have "dropWhile is_space (rev ws @ rev xs) = dropWhile is_space (rev xs)"
    using assms(3) by (intro dropWhile_append2) (simp add: list_all_iff)
  moreover have "dropWhile is_space (rev xs) = rev xs"
    using assms(1,2) by (cases "rev xs") (auto simp: last_rev hd_rev[symmetric] simp flip: hd_rev)
  ultimately show ?thesis by simp
qed

lemma strip_keep:
  assumes "xs \<noteq> []" "\<not> is_space (hd xs)" "\<not> is_space (last xs)"
    and "list_all is_space a" "list_all is_space b"
  shows "strip (a @ xs @ b) = xs"
proof -
  have "dropWhile is_space (a @ xs @ b) = dropWhile is_space (xs @ b)"
    using assms(4) by (intro dropWhile_append2) (simp add: list_all_iff)
  also have "\<dots> = xs @ b"
    using assms(1,2) by (cases xs) auto
  finally show ?thesis
    using rstrip_keep[OF assms(1,3,5)] by (simp add: strip_def)
qed

lemma spec_decimal_shape_split:
  assumes "spec_decimal_shape s"
  obtains a sg ds fr b where
    "s = a @ (sg @ ds @ fr) @ b" "list_all is_space a" "list_all is_space b"
    "sg = [] \<or> sg = ''-''" "ds \<noteq> []" "list_all is_digit ds"
    "fr = [] \<or> (\<exists>c fs. fr = c # fs \<and> (c = CHR ''.'' \<or> c = CHR '','') \<and> fs \<noteq> [] \<and> list_all is_digit fs)"
proof -
  define a where "a = takeWhile is_space s"
  define s1 where "s1 = dropWhile is_space s"
  define sg where "sg = (if s1 \<noteq> [] \<and> hd s1 = CHR ''-'' then ''-'' else [])"
  define s2 where "s2 = (case s1 of c # r \<Rightarrow> if c = CHR ''-'' then r else s1 | [] \<Rightarrow> s1)"
  define ds where "ds = takeWhile is_digit s2"
  define r1 where "r1 = dropWhile is_digit s2"
  have s: "s = a @ s1" by (simp add: a_def s1_def)
  have s1: "s1 = sg @ s2" by (cases s1) (auto simp: sg_def s2_def)
  have s2: "s2 = ds @ r1" by (simp add: ds_def r1_def)
  have a: "list_all is_space a" unfolding a_def list_all_iff by (auto dest: set_takeWhileD)
  have ds: "list_all is_digit ds" unfolding ds_def list_all_iff by (auto dest: set_takeWhileD)
  from assms have ne: "ds \<noteq> []" and alt: "list_all is_space r1 \<or>
          (case r1 of
             c # r2 \<Rightarrow> (c = CHR ''.'' \<or> c = CHR '','') \<and> takeWhile is_digit r2 \<noteq> [] \<and>
                       list_all is_space (dropWhile is_digit r2)
           | [] \<Rightarrow> False)"
    unfolding spec_decimal_shape_def Let_def s1_def[symmetric] s2_def[symmetric] r1_def[symmetric] ds_def[symmetric]
    by auto
  have sg: "sg = [] \<or> sg = ''-''" by (simp add: sg_def)
  from alt show thesis
  proof
    assume b: "list_all is_space r1"
    have eq: "s = a @ (sg @ ds @ []) @ r1"
      by (subst s, subst s1, subst s2) simp
    show thesis
      by (rule that[OF eq a b sg ne ds]) simp
  next
    assume c: "case r1 of
             c # r2 \<Rightarrow> (c = CHR ''.'' \<or> c = CHR '','') \<and> takeWhile is_digit r2 \<noteq> [] \<and>
                       list_all is_space (dropWhile is_digit r2)
           | [] \<Rightarrow> False"
    then obtain c r2 where r1: "r1 = c # r2" and cc: "c = CHR ''.'' \<or> c = CHR '',''"
      and fs: "takeWhile is_digit r2 \<noteq> []" and b: "list_all is_space (dropWhile is_digit r2)"
      by (cases r1) auto
    have fd: "list_all is_digit (takeWhile is_digit r2)"
      unfolding list_all_iff by (auto dest: set_takeWhileD)
    have "r1 = (c # takeWhile is_digit r2) @ dropWhile is_digit r2"
      by (simp add: r1)
    then have eq: "s = a @ (sg @ ds @ (c # takeWhile is_digit r2)) @ dropWhile is_digit r2"
      by (subst s, subst s1, subst s2) simp
    show thesis
      by (rule that[OF eq a b sg ne ds]) (use cc fs fd in blast)
  qed
qed

lemma decimal_core_facts:
  assumes "sg = [] \<or> sg = ''-''" "ds \<noteq> []" "list_all is_digit ds"
    "fr = [] \<or> (\<exists>c fs. fr = c # fs \<and> (c = CHR ''.'' \<or> c = CHR '','') \<and> fs \<noteq> [] \<and> list_all is_digit fs)"
  shows "sg @ ds @ fr \<noteq> []"
    and "\<not> is_space (hd (sg @ ds @ fr))"
    and "\<not> is_space (last (sg @ ds @ fr))"
    and "lower (sg @ ds @ fr) \<notin> {''nan'', ''none'', ''null''}"
    and "plain_decimal (replace_comma (sg @ ds @ fr))"
proof -
  obtain d ds' where ds: "ds = d # ds'" using assms(2) by (cases ds) auto
  have d: "is_digit d" using assms(3) ds by simp
  show "sg @ ds @ fr \<noteq> []" using assms(2) by simp
  show "\<not> is_space (hd (sg @ ds @ fr))"
    using assms(1) ds d digit_not_space minus_facts by auto
  have "last (sg @ ds @ fr) = (if fr = [] then last ds else last fr)"
    using assms(2) by simp
  moreover have "is_digit (last ds)"
    using assms(2,3) by (simp add: list_all_iff)
  moreover have "fr \<noteq> [] \<Longrightarrow> is_digit (last fr)"
    using assms(4) by (auto simp: list_all_iff)
  ultimately show "\<not> is_space (last (sg @ ds @ fr))"
    using digit_not_space by auto
  have "hd (lower (sg @ ds @ fr)) \<noteq> CHR ''n''"
    using assms(1) ds d digit_facts[OF d] minus_facts by (auto simp: lower_def)
  then show "lower (sg @ ds @ fr) \<notin> {''nan'', ''none'', ''null''}"
    by auto
  have rd: "replace_comma xs = xs" if "list_all is_digit xs" for xs
    using that digit_facts by (induction xs) (auto simp: replace_comma_def)
  have tw: "takeWhile is_digit (xs @ CHR ''.'' # ys) = xs"
           "dropWhile is_digit (xs @ CHR ''.'' # ys) = CHR ''.'' # ys"
    if "list_all is_digit xs" for xs ys
    using that minus_facts by (induction xs) auto
  have tw0: "takeWhile is_digit xs = xs" "dropWhile is_digit xs = []"
    if "list_all is_digit xs" for xs
    using that by (induction xs) auto
  have rc: "replace_comma (sg @ ds @ fr) = sg @ ds @ replace_comma fr"
    using assms(1) rd[OF assms(3)] by (auto simp: replace_comma_def)
  have pd: "plain_decimal (ds @ r)" if "r = [] \<or> (\<exists>fs. r = CHR ''.'' # fs \<and> fs \<noteq> [] \<and> list_all is_digit fs)" for r
    using that ds d digit_facts[OF d] tw[OF assms(3)] tw0[OF assms(3)] assms(2)
    by (auto simp: plain_decimal_def)
  have pm: "plain_decimal (CHR ''-'' # ds @ r)" if "r = [] \<or> (\<exists>fs. r = CHR ''.'' # fs \<and> fs \<noteq> [] \<and> list_all is_digit fs)" for r
    using that tw[OF assms(3)] tw0[OF assms(3)] assms(2)
    by (auto simp: plain_decimal_def)
  have fr: "replace_comma fr = [] \<or> (\<exists>fs. replace_comma fr = CHR ''.'' # fs \<and> fs \<noteq> [] \<and> list_all is_digit fs)"
    using assms(4) rd by (auto simp: replace_comma_def)
  show "plain_decimal (replace_comma (sg @ ds @ fr))"
    unfolding rc using assms(1) pd[OF fr] pm[OF fr] by auto
qed

lemma spec_decimal_shape_strip:
  assumes "spec_decimal_shape s"
  shows "strip s \<noteq> []" "lower (strip s) \<notin> {''nan'', ''none'', ''null''}"
    "plain_decimal (replace_comma (strip s))"
proof -
  from assms obtain a sg ds fr b where
    s: "s = a @ (sg @ ds @ fr) @ b" and a: "list_all is_space a" and b: "list_all is_space b"
    and c: "sg = [] \<or> sg = ''-''" "ds \<noteq> []" "list_all is_digit ds"
    "fr = [] \<or> (\<exists>c fs. fr = c # fs \<and> (c = CHR ''.'' \<or> c = CHR '','') \<and> fs \<noteq> [] \<and> list_all is_digit fs)"
    by (rule spec_decimal_shape_split)
  note f = decimal_core_facts[OF c]
  have st: "strip s = sg @ ds @ fr"
    unfolding s by (rule strip_keep[OF f(1,2,3) a b])
  show "strip s \<noteq> []" "lower (strip s) \<notin> {''nan'', ''none'', ''null''}"
    "plain_decimal (replace_comma (strip s))"
    unfolding st using f by blast+
qed

section \<open>The coercions\<close>

lemma strip_split:
  "dropWhile is_space s = strip s @ rev (takeWhile is_space (rev (dropWhile is_space s)))"
proof -
  define s1 where "s1 = dropWhile is_space s"
  have "strip s @ rev (takeWhile is_space (rev s1)) =
      rev (takeWhile is_space (rev s1) @ dropWhile is_space (rev s1))"
    by (simp add: strip_def s1_def del: takeWhile_dropWhile_id)
  also have "\<dots> = s1" by simp
  finally show ?thesis by (simp add: s1_def)
qed

lemma strip_decomp:
  "\<exists>a b. s = a @ strip s @ b \<and> list_all is_space a \<and> list_all is_space b"
proof -
  define b where "b = rev (takeWhile is_space (rev (dropWhile is_space s)))"
  have "s = takeWhile is_space s @ dropWhile is_space s" by simp
  also have "dropWhile is_space s = strip s @ b"
    unfolding b_def by (rule strip_split)
  finally have "s = takeWhile is_space s @ strip s @ b" .
  moreover have "list_all is_space (takeWhile is_space s)"
    unfolding list_all_iff by (auto dest: set_takeWhileD)
  moreover have "list_all is_space b"
    unfolding list_all_iff b_def by (auto dest: set_takeWhileD)
  ultimately show ?thesis by blast
qed

lemma strip_ends:
  assumes "strip s \<noteq> []"
  shows "\<not> is_space (hd (strip s)) \<and> \<not> is_space (last (strip s))"
proof -
  define s1 where "s1 = dropWhile is_space s"
  have ne: "dropWhile is_space (rev s1) \<noteq> []"
    using assms by (simp add: strip_def s1_def)
  then have "\<not> is_space (hd (dropWhile is_space (rev s1)))"
    by (rule hd_dropWhile)
  then have l: "\<not> is_space (last (strip s))"
    using ne by (simp add: strip_def s1_def last_rev)
  have "s1 \<noteq> []" using ne by auto
  then have h1: "\<not> is_space (hd s1)"
    unfolding s1_def by (rule hd_dropWhile)
  have "hd s1 = hd (strip s @ rev (takeWhile is_space (rev s1)))"
    unfolding s1_def using strip_split [of s] by simp
  then have "hd s1 = hd (strip s)"
    using assms by simp
  with h1 l show ?thesis by simp
qed

lemma strip_empty_iff: "strip s = [] \<longleftrightarrow> list_all is_space s"
proof
  assume "strip s = []"
  then have "dropWhile is_space s = rev (takeWhile is_space (rev (dropWhile is_space s)))"
    using strip_split [of s] by simp
  then have "\<forall>c \<in> set (dropWhile is_space s). is_space c"
    by (metis set_rev set_takeWhileD)
  then have "dropWhile is_space s = []"
    using hd_dropWhile [of is_space s] by (cases "dropWhile is_space s") auto
  then show "list_all is_space s"
    by (simp only: list_all_iff dropWhile_eq_Nil_conv)
next
  assume "list_all is_space s"
  then have d: "dropWhile is_space s = []"
    by (simp only: list_all_iff dropWhile_eq_Nil_conv)
  show "strip s = []" unfolding strip_def d by simp
qed

text \<open>
  C10. A cell that is already a float leaves \<open>_safe_float\<close> unchanged, whatever
  \<open>float\<close> and \<open>str\<close> would do with it: the sentinel filter and the parser are not
  reached. In particular a float NaN is returned as NaN and not as the absent value.
\<close>

theorem safe_float_float_unchanged:
  "safe_float_try E (PyFloat f) = Inr (Some f) \<and> safe_float E (PyFloat f) = Some f \<and>
   safe_float E (PyFloat NaN) = Some NaN"
  by (simp add: safe_float_def)

text \<open>
  The same at two concrete floats; the text of the NaN is one of the sentinels.
\<close>

theorem safe_float_float_unchanged_witness:
  "safe_float sample_env (PyFloat (Finite 2.5)) = Some (Finite 2.5) \<and>
   safe_float sample_env (PyFloat NaN) = Some NaN \<and>
   lower (strip (py_str sample_env (PyFloat NaN))) = ''nan''"
  using safe_float_float_unchanged [of sample_env "Finite 2.5"]
  by (simp add: sample_env_def sample_float_str_def strip_def is_space_def lower_def lower_char_def)

text \<open>
  What \<open>_safe_str\<close> computes: the absent value for \<open>None\<close> and for a value whose
  text is empty after trimming; otherwise the trimmed text of \<open>str(x)\<close>, which is the
  text between a leading and a trailing run of whitespace and neither starts nor ends
  with whitespace. For a string cell: absent when the string is all whitespace, the
  trimmed string otherwise.
\<close>

lemma safe_str_trimmed:
  "(x = PyNone \<longrightarrow> safe_str E x = None) \<and>
   (strip (py_str E x) = [] \<longrightarrow> safe_str E x = None) \<and>
   (x \<noteq> PyNone \<and> strip (py_str E x) \<noteq> [] \<longrightarrow>
      safe_str E x = Some (strip (py_str E x)) \<and>
      \<not> is_space (hd (strip (py_str E x))) \<and> \<not> is_space (last (strip (py_str E x)))) \<and>
   (\<exists>a b. py_str E x = a @ strip (py_str E x) @ b \<and> list_all is_space a \<and> list_all is_space b) \<and>
   safe_str E (PyStr s) = (if list_all is_space s then None else Some (strip s))"
  using strip_decomp [of "py_str E x"] strip_ends [of "py_str E x"] strip_empty_iff [of s]
  by (simp add: safe_str_def)

text \<open>
  A float cell is never \<open>None\<close>, so \<open>_safe_str\<close> stores the trimmed text of the float
  whenever that text is not empty.
\<close>

lemma safe_str_of_float:
  "safe_str E (PyFloat f) =
     (if strip (float_str E f) = [] then None else Some (strip (float_str E f)))"
  by (simp add: safe_str_def)

text \<open>
  C8 on the code. A status cell that is absent in a row of the file reaches
  \<open>_safe_str\<close> as the float NaN, which is not \<open>None\<close> and whose text \<open>nan\<close> is not
  empty: the status stored for that row is the text \<open>nan\<close>, not the absent value.
  The padded label of the first row is trimmed as the claim says, and a status that is
  \<open>None\<close> or blank is absent.
\<close>

theorem missing_status_stored_as_text:
  "safe_str sample_env (PyFloat NaN) = Some ''nan'' \<and>
   committed (snd (ingest_electrical_csv sample_env [] 7 (Some sample_status) ''timestamp''
                     None 1000)) =
     [(7, ''2024-01-01 00:00:00'', None, None, None, None, Some ''ok''),
      (7, ''2024-01-01 00:10:00'', None, None, None, None, Some ''nan'')] \<and>
   safe_str sample_env PyNone = None \<and>
   safe_str sample_env (PyStr [CHR 0x20, CHR 0x09]) = None"
  by code_simp

text \<open>
  C5 as stated fails on a float input. The float NaN, whose text \<open>nan\<close> is one of the
  sentinels, is not turned into the absent value: the \<open>isinstance(x, float)\<close> branch
  returns it before the sentinel filter.
\<close>

theorem safe_float_nan_counterexample:
  "lower (strip (py_str sample_env (PyFloat NaN))) \<in> {''nan'', ''none'', ''null''} \<and>
   safe_float sample_env (PyFloat NaN) \<noteq> None"
  by (simp add: safe_float_def sample_env_def sample_float_str_def strip_def is_space_def
      lower_def lower_char_def)

text \<open>
  C5, amended to the inputs that are not floats. For such an input \<open>_safe_float\<close>
  \<^item> gives the absent value when the input is \<open>None\<close>, or its trimmed text is empty or is
    \<open>nan\<close>, \<open>none\<close> or \<open>null\<close> in any letter case;
  \<^item> gives what \<open>float\<close> parses from the trimmed text with commas replaced by periods
    when the text has the decimal shape of the specification, and that text is then a
    plain decimal with a period;
  \<^item> gives the absent value when \<open>float\<close> rejects the normalised text;
  \<^item> gives in every case the absent value or the parsed number, and an exception raised
    inside the \<open>try\<close> block ends as the absent value, never as an exception of the
    caller.
\<close>

theorem safe_float_non_float:
  assumes "\<forall>f. x \<noteq> PyFloat f"
  shows
  "(x = PyNone \<or> strip (py_str E x) = [] \<or>
      lower (strip (py_str E x)) \<in> {''nan'', ''none'', ''null''} \<longrightarrow> safe_float E x = None) \<and>
   (spec_decimal_shape (py_str E x) \<longrightarrow>
      safe_float E x = float_parse E (replace_comma (strip (py_str E x))) \<and>
      plain_decimal (replace_comma (strip (py_str E x)))) \<and>
   (float_parse E (replace_comma (strip (py_str E x))) = None \<longrightarrow> safe_float E x = None) \<and>
   (safe_float E x = None \<or>
      safe_float E x = float_parse E (replace_comma (strip (py_str E x)))) \<and>
   ((\<exists>e. safe_float_try E x = Inl e) \<longrightarrow> safe_float E x = None)"
proof -
  let ?s = "strip (py_str E x)"
  have eq: "safe_float E x =
      (if x = PyNone \<or> ?s = [] \<or> lower ?s \<in> {''nan'', ''none'', ''null''} then None
       else float_parse E (replace_comma ?s))"
    using assms by (cases x) (auto simp: safe_float_def Let_def split: option.splits)
  have nn: "\<not> spec_decimal_shape (py_str E PyNone)"
    by (simp add: spec_decimal_shape_def is_space_def is_digit_def)
  have dec: "x \<noteq> PyNone \<and> ?s \<noteq> [] \<and> lower ?s \<notin> {''nan'', ''none'', ''null''} \<and>
      plain_decimal (replace_comma ?s)" if "spec_decimal_shape (py_str E x)"
    using spec_decimal_shape_strip [OF that] that nn by auto
  have exc: "safe_float E x = None" if "safe_float_try E x = Inl e" for e
    using that by (simp add: safe_float_def)
  show ?thesis
    using eq dec exc by auto
qed

text \<open>
  The numeric coercion on a comma decimal, on a sentinel, on a text \<open>float\<close> rejects
  and on an integer cell.
\<close>

theorem safe_float_non_float_witness:
  "safe_float sample_env (PyStr '' -12,50 '') = Some (Finite (- 12.5)) \<and>
   safe_float sample_env (PyStr '' NaN '') = None \<and>
   safe_float sample_env (PyStr ''12 kW'') = None \<and>
   safe_float sample_env (PyInt 230) = Some (Finite 230)"
proof -
  have d: "spec_decimal_shape (py_str sample_env (PyStr '' -12,50 ''))"
    by (simp add: spec_decimal_shape_def is_space_def is_digit_def)
  have v: "float_parse sample_env (replace_comma (strip (py_str sample_env (PyStr '' -12,50 ''))))
      = Some (Finite (- 12.5))"
    by (simp add: strip_def is_space_def replace_comma_def sample_env_def sample_float_def
        plain_decimal_def is_digit_def nat_of_digits_def digit_val_def)
  have n: "lower (strip (py_str sample_env (PyStr '' NaN ''))) = ''nan''"
    by code_simp
  have k: "float_parse sample_env (replace_comma (strip (py_str sample_env (PyStr ''12 kW'')))) = None"
    by (simp add: strip_def is_space_def replace_comma_def sample_env_def sample_float_def
        plain_decimal_def is_digit_def)
  have i: "spec_decimal_shape (py_str sample_env (PyInt 230))"
    by (simp add: spec_decimal_shape_def is_space_def is_digit_def str_int_def str_nat.simps
        digit_char_def)
  have iv: "float_parse sample_env (replace_comma (strip (py_str sample_env (PyInt 230))))
      = Some (Finite 230)"
    by (simp add: strip_def is_space_def replace_comma_def sample_env_def sample_float_def
        plain_decimal_def is_digit_def nat_of_digits_def digit_val_def str_int_def str_nat.simps
        digit_char_def)
  show ?thesis
    using safe_float_non_float [of "PyStr '' -12,50 ''" sample_env]
      safe_float_non_float [of "PyStr '' NaN ''" sample_env]
      safe_float_non_float [of "PyStr ''12 kW''" sample_env]
      safe_float_non_float [of "PyInt 230" sample_env]
      d v n k i iv
    by simp
qed

text \<open>
  C9. Two calls that differ in \<open>timestamp_col\<close> only have the same outcome: the same
  exception or returned value, the same rows in the table, the same messages.
\<close>

theorem timestamp_col_ignored:
  "ingest_electrical_csv E db system_id csv timestamp_col col_mappings chunk_size =
   ingest_electrical_csv E db system_id csv timestamp_col' col_mappings chunk_size"
  by (simp add: ingest_electrical_csv_def)

section \<open>The insertion of one chunk\<close>

lemma executemany_Inr:
  "executemany E rows st = Inr st' \<Longrightarrow> st' = st\<lparr>pending := pending st @ rows\<rparr>"
proof (induction rows arbitrary: st)
  case Nil
  then show ?case by simp
next
  case (Cons r rows)
  show ?case
  proof (cases "db_insert E (committed st) (pending st) r")
    case None
    with Cons.prems have "executemany E rows (st\<lparr>pending := pending st @ [r]\<rparr>) = Inr st'"
      by simp
    from Cons.IH [OF this] show ?thesis by simp
  next
    case (Some m)
    with Cons.prems show ?thesis by simp
  qed
qed

lemma executemany_Inl:
  "executemany E rows st = Inl (m, st') \<Longrightarrow>
     committed st' = committed st \<and> conn_open st' = conn_open st \<and> out st' = out st \<and>
     total_inserted st' = total_inserted st"
proof (induction rows arbitrary: st)
  case Nil
  then show ?case by simp
next
  case (Cons r rows)
  show ?case
  proof (cases "db_insert E (committed st) (pending st) r")
    case None
    with Cons.prems have "executemany E rows (st\<lparr>pending := pending st @ [r]\<rparr>) = Inl (m, st')"
      by simp
    from Cons.IH [OF this] show ?thesis by simp
  next
    case (Some e)
    with Cons.prems show ?thesis by simp
  qed
qed

lemma executemany_refusal:
  "insert_refusal E (committed st) (pending st) rows =
     (case executemany E rows st of Inl (m, st') \<Rightarrow> Some m | Inr st' \<Rightarrow> None)"
proof (induction rows arbitrary: st)
  case Nil
  show ?case by simp
next
  case (Cons r rows)
  show ?case
    using Cons.IH [of "st\<lparr>pending := pending st @ [r]\<rparr>"]
    by (cases "db_insert E (committed st) (pending st) r") simp_all
qed

lemma rollback_after_failure:
  assumes "executemany E rows st = Inl (m, st')"
  shows "rollback st' = st\<lparr>pending := []\<rparr>"
  using executemany_Inl [OF assms] by (simp add: rollback_def state.equality)

lemma insert_chunk_char:
  assumes "pending st = []"
  shows "insert_chunk E rows st =
     (case txn_failure E (committed st) rows of
        Some m \<Rightarrow> (Some (PersistenceError m), st)
      | None \<Rightarrow> (None, st\<lparr>committed := committed st @ rows,
                          total_inserted := total_inserted st + length rows,
                          out := out st @ [Inserted (length rows) (total_inserted st + length rows)]\<rparr>))"
proof (cases "executemany E rows st")
  case (Inl a)
  obtain m st1 where a: "a = (m, st1)" by (cases a)
  have "insert_refusal E (committed st) [] rows = Some m"
    using executemany_refusal [of E st rows] Inl a assms by simp
  moreover have "rollback st1 = st"
    using rollback_after_failure [of E rows st m st1] Inl a assms by (simp add: state.equality)
  ultimately show ?thesis
    using Inl a by (simp add: insert_chunk_def txn_failure_def)
next
  case (Inr st1)
  have r: "insert_refusal E (committed st) [] rows = None"
    using executemany_refusal [of E st rows] Inr assms by simp
  have st1: "st1 = st\<lparr>pending := rows\<rparr>"
    using executemany_Inr [OF Inr] assms by simp
  show ?thesis
  proof (cases "db_commit E (committed st) rows")
    case None
    then show ?thesis
      using Inr r st1 assms by (simp add: insert_chunk_def txn_failure_def Let_def state.equality)
  next
    case (Some m)
    then show ?thesis
      using Inr r st1 assms by (simp add: insert_chunk_def txn_failure_def rollback_def state.equality)
  qed
qed

lemma length_map_filter: "length (List.map_filter f xs) = length (filter (\<lambda>x. f x \<noteq> None) xs)"
  by (simp add: List.map_filter_def)

lemma unparseable_le: "unparseable E cm ch \<le> length (data ch)"
  by (simp add: unparseable_def timestamp_cells_def le_trans [OF length_filter_le])

lemma length_rows_of_chunk:
  "length (rows_of_chunk E system_id cm ch) + unparseable E cm ch = length (data ch)"
proof -
  let ?cell = "\<lambda>row. target_cell (map strip (columns ch))
      (col_map_existing cm (map strip (columns ch)) []) row ''timestamp''"
  let ?P = "\<lambda>row. to_datetime E (map ?cell (data ch)) (?cell row) = None"
  have "length (rows_of_chunk E system_id cm ch) = length (filter (\<lambda>row. \<not> ?P row) (data ch))"
    unfolding rows_of_chunk_def build_rows_def Let_def length_map_filter
    by (rule arg_cong [where f = length], rule filter_cong) (auto split: option.splits)
  moreover have "unparseable E cm ch = length (filter ?P (data ch))"
    by (simp add: unparseable_def timestamp_cells_def filter_map comp_def)
  ultimately show ?thesis
    using sum_length_filter_compl [of ?P "data ch"] by simp
qed

lemma list_ex_not_all:
  "list_ex (\<lambda>(src, tgt). count_list cols src \<noteq> 1) cme \<longleftrightarrow>
   \<not> list_all (\<lambda>(src, tgt). count_list cols src = (1::nat)) cme"
  by (induction cme) auto

lemma process_chunk_char:
  assumes "pending st = []"
  shows "process_chunk E system_id cm ch st =
     (if \<not> list_ex (\<lambda>(src, tgt). tgt = ''timestamp'')
             (col_map_existing cm (map strip (columns ch)) [])
      then (Some SchemaError, st)
      else if \<not> headers_ok cm (columns ch) then (Some FrameError, st)
      else (case txn_failure E (committed st) (rows_of_chunk E system_id cm ch) of
              Some m \<Rightarrow> (Some (PersistenceError m), note_dropped E cm ch st)
            | None \<Rightarrow> (None, committed_chunk E system_id cm ch st)))"
proof -
  let ?rows = "rows_of_chunk E system_id cm ch"
  have lt: "length ?rows < length (data ch) \<longleftrightarrow> 0 < unparseable E cm ch"
    and diff: "length (data ch) - length ?rows = unparseable E cm ch"
    using length_rows_of_chunk [of E system_id cm ch] by auto
  have nd: "(if length ?rows < length (data ch)
             then st\<lparr>out := out st @ [Dropped (length (data ch) - length ?rows)]\<rparr> else st)
        = note_dropped E cm ch st"
    by (simp add: note_dropped_def lt diff)
  have p: "pending (note_dropped E cm ch st) = []"
    using assms by (simp add: note_dropped_def)
  have c: "committed (note_dropped E cm ch st) = committed st"
       "total_inserted (note_dropped E cm ch st) = total_inserted st"
    by (simp_all add: note_dropped_def)
  show ?thesis
    unfolding process_chunk_def Let_def rows_of_chunk_def [symmetric] nd
      insert_chunk_char [OF p] c list_ex_not_all headers_ok_def committed_chunk_def
    by simp
qed

lemma dropped_counts_append: "dropped_counts (xs @ ys) = dropped_counts xs @ dropped_counts ys"
  by (simp add: dropped_counts_def List.map_filter_def)

lemma note_dropped_fields:
  "committed (note_dropped E cm ch st) = committed st"
  "pending (note_dropped E cm ch st) = pending st"
  "conn_open (note_dropped E cm ch st) = conn_open st"
  "total_inserted (note_dropped E cm ch st) = total_inserted st"
  "dropped_counts (out (note_dropped E cm ch st)) =
     dropped_counts (out st) @ filter (\<lambda>k. 0 < k) [unparseable E cm ch]"
  by (simp_all add: note_dropped_def dropped_counts_append)
     (simp add: dropped_counts_def List.map_filter_def)

lemma committed_chunk_fields:
  "committed (committed_chunk E system_id cm ch st) =
     committed st @ rows_of_chunk E system_id cm ch"
  "pending (committed_chunk E system_id cm ch st) = pending st"
  "conn_open (committed_chunk E system_id cm ch st) = conn_open st"
  "total_inserted (committed_chunk E system_id cm ch st) =
     total_inserted st + length (rows_of_chunk E system_id cm ch)"
  "dropped_counts (out (committed_chunk E system_id cm ch st)) =
     dropped_counts (out st) @ filter (\<lambda>k. 0 < k) [unparseable E cm ch]"
  "out (committed_chunk E system_id cm ch st) \<noteq> []"
  by (simp_all add: committed_chunk_def Let_def note_dropped_fields dropped_counts_append)
     (simp add: dropped_counts_def List.map_filter_def)

lemma process_chunk_None:
  assumes "process_chunk E system_id cm ch st = (None, st1)" "pending st = []"
  shows "st1 = committed_chunk E system_id cm ch st"
    and "headers_ok cm (columns ch)"
    and "txn_failure E (committed st) (rows_of_chunk E system_id cm ch) = None"
  using assms(1) unfolding process_chunk_char [OF assms(2)]
  by (auto split: if_splits option.splits)

lemma process_chunk_Some:
  assumes "process_chunk E system_id cm ch st = (Some e, st1)" "pending st = []"
  shows "committed st1 = committed st \<and> pending st1 = [] \<and> conn_open st1 = conn_open st \<and>
         total_inserted st1 = total_inserted st"
  using assms unfolding process_chunk_char [OF assms(2)]
  by (auto split: if_splits option.splits simp: note_dropped_fields)

lemma ingest_loop_ok:
  assumes "ingest_loop E system_id cm chs st = (None, st')" "pending st = []"
  shows "committed st' = committed st @ concat (map (rows_of_chunk E system_id cm) chs) \<and>
     pending st' = [] \<and> conn_open st' = conn_open st \<and>
     total_inserted st' =
       total_inserted st + length (concat (map (rows_of_chunk E system_id cm) chs)) \<and>
     dropped_counts (out st') =
       dropped_counts (out st) @ filter (\<lambda>k. 0 < k) (map (unparseable E cm) chs)"
  using assms
proof (induction chs arbitrary: st)
  case Nil
  then show ?case by simp
next
  case (Cons ch chs)
  obtain r st1 where pc: "process_chunk E system_id cm ch st = (r, st1)"
    by (cases "process_chunk E system_id cm ch st")
  with Cons.prems(1) have r: "r = None" and rest: "ingest_loop E system_id cm chs st1 = (None, st')"
    by (cases r; simp)+
  have st1: "st1 = committed_chunk E system_id cm ch st"
    using process_chunk_None(1) [OF pc [unfolded r] Cons.prems(2)] .
  have p1: "pending st1 = []"
    using Cons.prems(2) by (simp add: st1 committed_chunk_fields)
  show ?case
    using Cons.IH [OF rest p1] by (simp add: st1 committed_chunk_fields)
qed

lemma ingest_loop_err:
  assumes "ingest_loop E system_id cm chs st = (Some e, st')" "pending st = []"
  shows "\<exists>k<length chs.
     committed st' = committed st @ concat (map (rows_of_chunk E system_id cm) (take k chs)) \<and>
     pending st' = [] \<and> conn_open st' = conn_open st"
  using assms
proof (induction chs arbitrary: st)
  case Nil
  then show ?case by simp
next
  case (Cons ch chs)
  obtain r st1 where pc: "process_chunk E system_id cm ch st = (r, st1)"
    by (cases "process_chunk E system_id cm ch st")
  show ?case
  proof (cases r)
    case None
    with pc Cons.prems(1) have rest: "ingest_loop E system_id cm chs st1 = (Some e, st')"
      by simp
    have st1: "st1 = committed_chunk E system_id cm ch st"
      using process_chunk_None(1) [OF pc [unfolded None] Cons.prems(2)] .
    have p1: "pending st1 = []"
      using Cons.prems(2) by (simp add: st1 committed_chunk_fields)
    from Cons.IH [OF rest p1] obtain k where
      "k < length chs"
      "committed st' = committed st1 @ concat (map (rows_of_chunk E system_id cm) (take k chs))"
      "pending st' = []" "conn_open st' = conn_open st1"
      by blast
    then have "Suc k < length (ch # chs) \<and>
       committed st' = committed st @
         concat (map (rows_of_chunk E system_id cm) (take (Suc k) (ch # chs))) \<and>
       pending st' = [] \<and> conn_open st' = conn_open st"
      by (simp add: st1 committed_chunk_fields)
    then show ?thesis by blast
  next
    case (Some e1)
    with pc Cons.prems(1) have "e = e1" "st' = st1" by simp_all
    with process_chunk_Some [OF pc [unfolded Some] Cons.prems(2)]
    have "0 < length (ch # chs) \<and>
       committed st' = committed st @
         concat (map (rows_of_chunk E system_id cm) (take 0 (ch # chs))) \<and>
       pending st' = [] \<and> conn_open st' = conn_open st"
      by simp
    then show ?thesis by blast
  qed
qed

lemma ingest_loop_fail:
  assumes "pending st = []"
    and "\<forall>ch \<in> set chs. headers_ok cm (columns ch)"
    and "k < length chs"
    and "\<forall>j<k. txn_failure E
            (committed st @ concat (map (rows_of_chunk E system_id cm) (take j chs)))
            (rows_of_chunk E system_id cm (chs ! j)) = None"
    and "txn_failure E
            (committed st @ concat (map (rows_of_chunk E system_id cm) (take k chs)))
            (rows_of_chunk E system_id cm (chs ! k)) = Some m"
  shows "\<exists>st'. ingest_loop E system_id cm chs st = (Some (PersistenceError m), st') \<and>
     committed st' = committed st @ concat (map (rows_of_chunk E system_id cm) (take k chs)) \<and>
     pending st' = [] \<and> conn_open st' = conn_open st"
  using assms
proof (induction chs arbitrary: st k)
  case Nil
  then show ?case by simp
next
  case (Cons ch chs)
  have hok: "headers_ok cm (columns ch)" using Cons.prems(2) by simp
  then have ts: "list_ex (\<lambda>(src, tgt). tgt = ''timestamp'')
      (col_map_existing cm (map strip (columns ch)) [])"
    by (simp add: headers_ok_def Let_def)
  show ?case
  proof (cases k)
    case 0
    with Cons.prems(5) have "txn_failure E (committed st) (rows_of_chunk E system_id cm ch) = Some m"
      by simp
    then have "process_chunk E system_id cm ch st =
        (Some (PersistenceError m), note_dropped E cm ch st)"
      using hok ts by (simp add: process_chunk_char [OF Cons.prems(1)])
    then show ?thesis
      using 0 Cons.prems(1) by (simp add: note_dropped_fields)
  next
    case (Suc k')
    let ?st1 = "committed_chunk E system_id cm ch st"
    from Cons.prems(4) Suc have "txn_failure E (committed st) (rows_of_chunk E system_id cm ch) = None"
      by (auto dest: spec [where x = 0])
    then have pc: "process_chunk E system_id cm ch st = (None, ?st1)"
      using hok ts by (simp add: process_chunk_char [OF Cons.prems(1)])
    have p1: "pending ?st1 = []"
      using Cons.prems(1) by (simp add: committed_chunk_fields)
    have h2: "\<forall>ch \<in> set chs. headers_ok cm (columns ch)" using Cons.prems(2) by simp
    have k': "k' < length chs" using Cons.prems(3) Suc by simp
    have h4: "\<forall>j<k'. txn_failure E
            (committed ?st1 @ concat (map (rows_of_chunk E system_id cm) (take j chs)))
            (rows_of_chunk E system_id cm (chs ! j)) = None"
    proof (intro allI impI)
      fix j assume "j < k'"
      then have "Suc j < k" using Suc by simp
      from Cons.prems(4) [rule_format, OF this] show "txn_failure E
            (committed ?st1 @ concat (map (rows_of_chunk E system_id cm) (take j chs)))
            (rows_of_chunk E system_id cm (chs ! j)) = None"
        by (simp add: committed_chunk_fields)
    qed
    have h5: "txn_failure E
            (committed ?st1 @ concat (map (rows_of_chunk E system_id cm) (take k' chs)))
            (rows_of_chunk E system_id cm (chs ! k')) = Some m"
      using Cons.prems(5) Suc by (simp add: committed_chunk_fields)
    from Cons.IH [OF p1 h2 k' h4 h5] show ?thesis
      using pc Suc by (simp add: committed_chunk_fields)
  qed
qed

lemma chunk_rows_concat: "0 < n \<Longrightarrow> concat (chunk_rows n xs) = xs"
proof (induction n xs rule: chunk_rows.induct)
  case (1 n xs)
  show ?case
  proof (cases "xs = []")
    case True
    then show ?thesis by (simp add: chunk_rows.simps)
  next
    case False
    with 1 show ?thesis
      by (subst chunk_rows.simps) simp
  qed
qed

lemma read_csv_data: "0 < n \<Longrightarrow> concat (map data (read_csv f n)) = data f"
  using chunk_rows_concat [of n "data f"]
  by (simp add: read_csv_def comp_def)

lemma read_csv_columns: "ch \<in> set (read_csv f n) \<Longrightarrow> columns ch = columns f"
  by (auto simp: read_csv_def split: if_splits)

lemma read_csv_first: "0 < n \<Longrightarrow> \<exists>ch chs. read_csv f n = ch # chs \<and> columns ch = columns f"
proof (cases "data f = []")
  case True
  then show ?thesis by (simp add: read_csv_def)
next
  case False
  assume "0 < n"
  with False have "chunk_rows n (data f) = take n (data f) # chunk_rows n (drop n (data f))"
    by (subst chunk_rows.simps) simp
  with False show ?thesis by (simp add: read_csv_def)
qed

lemma update_entries: "set (AList.update k v al) \<subseteq> insert (k, v) (set al)"
  by (induction al) auto

lemma col_map_existing_entries:
  "(src, tgt) \<in> set (col_map_existing cm cols acc) \<Longrightarrow>
     (src, tgt) \<in> set acc \<or> (src \<in> set cols \<and> resolve cm src = Some tgt)"
proof (induction cols arbitrary: acc)
  case Nil
  then show ?case by simp
next
  case (Cons c cols)
  show ?case
  proof (cases "resolve cm c")
    case None
    with Cons.prems have "(src, tgt) \<in> set (col_map_existing cm cols acc)" by simp
    from Cons.IH [OF this] show ?thesis by auto
  next
    case (Some t)
    with Cons.prems have "(src, tgt) \<in> set (col_map_existing cm cols (AList.update c t acc))"
      by simp
    from Cons.IH [OF this] update_entries [of c t acc] Some show ?thesis by auto
  qed
qed

lemma no_timestamp_header:
  assumes "\<forall>h \<in> set hs. resolve cm (strip h) \<noteq> Some ''timestamp''"
  shows "\<not> list_ex (\<lambda>(src, tgt). tgt = ''timestamp'') (col_map_existing cm (map strip hs) [])"
proof
  assume "list_ex (\<lambda>(src, tgt). tgt = ''timestamp'') (col_map_existing cm (map strip hs) [])"
  then obtain src where "(src, ''timestamp'') \<in> set (col_map_existing cm (map strip hs) [])"
    by (auto simp: list_ex_iff)
  from col_map_existing_entries [OF this] assms show False by auto
qed

lemma process_chunk_schema:
  "\<not> list_ex (\<lambda>(src, tgt). tgt = ''timestamp'') (col_map_existing cm (map strip (columns ch)) [])
   \<Longrightarrow> process_chunk E system_id cm ch st = (Some SchemaError, st)"
  by (simp add: process_chunk_def Let_def)

section \<open>The whole ingestion\<close>

lemma ingest_success:
  assumes "ingest_electrical_csv E db system_id (Some f) timestamp_col col_mappings n = (Inr v, st')"
  obtains st2 where "pandas_available E" "0 < n" "v = PyNone"
    "ingest_loop E system_id (combined_map col_mappings) (read_csv f n)
       \<lparr>committed = db, pending = [], conn_open = True, out = [], total_inserted = 0\<rparr>
     = (None, st2)"
    "st' = st2\<lparr>conn_open := False, out := out st2 @ [Finished (total_inserted st2)]\<rparr>"
proof -
  let ?loop = "ingest_loop E system_id (combined_map col_mappings) (read_csv f n)
       \<lparr>committed = db, pending = [], conn_open = True, out = [], total_inserted = 0\<rparr>"
  obtain r st2 where l: "?loop = (r, st2)" by (cases ?loop)
  from assms have p: "pandas_available E" and n: "0 < n"
    by (auto simp: ingest_electrical_csv_def Let_def split: if_splits)
  from assms p n l have "r = None \<and> v = PyNone \<and>
      st' = st2\<lparr>conn_open := False, out := out st2 @ [Finished (total_inserted st2)]\<rparr>"
    by (cases r) (auto simp: ingest_electrical_csv_def Let_def)
  with that p n l show thesis by blast
qed

lemma ingest_after_connect:
  assumes "pandas_available E" "0 < n"
  shows "ingest_electrical_csv E db system_id (Some f) timestamp_col col_mappings n =
     (case ingest_loop E system_id (combined_map col_mappings) (read_csv f n)
             \<lparr>committed = db, pending = [], conn_open = True, out = [], total_inserted = 0\<rparr> of
        (Some e, st2) \<Rightarrow> (Inl e, st2)
      | (None, st2) \<Rightarrow>
          (Inr PyNone,
           st2\<lparr>conn_open := False, out := out st2 @ [Finished (total_inserted st2)]\<rparr>))"
  using assms by (simp add: ingest_electrical_csv_def Let_def)

lemma accepting_storage:
  assumes "\<forall>c p r. db_insert E c p r = None" "\<forall>c p. db_commit E c p = None"
  shows "txn_failure E c rows = None"
proof -
  have di: "db_insert E c p r = None" for p r
    using assms(1) by blast
  have "insert_refusal E c p rows = None" for p
    by (induction rows arbitrary: p) (simp_all add: di)
  with assms(2) show ?thesis by (simp add: txn_failure_def)
qed

lemma ingest_loop_accepting:
  assumes "pending st = []" "\<forall>ch \<in> set chs. headers_ok cm (columns ch)"
    and "\<forall>c rows. txn_failure E c rows = None"
  shows "\<exists>st'. ingest_loop E system_id cm chs st = (None, st')"
  using assms(1,2)
proof (induction chs arbitrary: st)
  case Nil
  then show ?case by simp
next
  case (Cons ch chs)
  have hok: "headers_ok cm (columns ch)" using Cons.prems(2) by simp
  then have ts: "list_ex (\<lambda>(src, tgt). tgt = ''timestamp'')
      (col_map_existing cm (map strip (columns ch)) [])"
    by (simp add: headers_ok_def Let_def)
  have pc: "process_chunk E system_id cm ch st = (None, committed_chunk E system_id cm ch st)"
    using hok ts assms(3) by (simp add: process_chunk_char [OF Cons.prems(1)])
  have p1: "pending (committed_chunk E system_id cm ch st) = []"
    using Cons.prems(1) by (simp add: committed_chunk_fields)
  from Cons.IH [OF p1] Cons.prems(2) pc show ?case by simp
qed

lemma sum_unparseable:
  assumes "0 < n"
  shows "length (concat (map (rows_of_chunk E system_id cm) (read_csv f n))) +
     sum_list (map (unparseable E cm) (read_csv f n)) = length (data f)"
proof -
  have "length (concat (map (rows_of_chunk E system_id cm) chs)) +
      sum_list (map (unparseable E cm) chs) = length (concat (map data chs))" for chs
  proof (induction chs)
    case Nil
    show ?case by simp
  next
    case (Cons ch chs)
    then show ?case
      using length_rows_of_chunk [of E system_id cm ch] by simp
  qed
  then show ?thesis by (simp add: read_csv_data [OF assms])
qed

lemma ingest_success_closes:
  assumes "ingest_electrical_csv E db system_id (Some f) timestamp_col col_mappings n = (Inr v, st')"
  shows "\<not> conn_open st'"
  using assms by (rule ingest_success) simp

lemma ingest_failure_leaves_open:
  assumes "ingest_electrical_csv E db system_id (Some f) timestamp_col col_mappings n =
      (Inl (PersistenceError m), st')"
  shows "conn_open st'"
proof -
  let ?loop = "ingest_loop E system_id (combined_map col_mappings) (read_csv f n)
       \<lparr>committed = db, pending = [], conn_open = True, out = [], total_inserted = 0\<rparr>"
  from assms have p: "pandas_available E" and n: "0 < n"
    by (auto simp: ingest_electrical_csv_def Let_def split: if_splits)
  obtain r st2 where l: "?loop = (r, st2)" by (cases ?loop)
  from assms l have "r = Some (PersistenceError m)" "st' = st2"
    by (cases r; simp add: ingest_after_connect [OF p n])+
  with l have "?loop = (Some (PersistenceError m), st')" by simp
  from ingest_loop_err [OF this] show ?thesis by auto
qed

text \<open>
  C1 as stated fails: on the three-row sample the call inserts two rows and returns
  \<open>None\<close>, not the count 2. \<open>ingest_electrical_csv\<close> has no \<open>return\<close> statement.
\<close>

theorem ingest_returns_none_counterexample:
  "fst (ingest_electrical_csv sample_env [] 7 (Some sample_csv) ''timestamp'' None 1000)
     = Inr PyNone \<and>
   fst (ingest_electrical_csv sample_env [] 7 (Some sample_csv) ''timestamp'' None 1000)
     \<noteq> Inr (PyInt 2) \<and>
   length (committed
     (snd (ingest_electrical_csv sample_env [] 7 (Some sample_csv) ''timestamp'' None 1000))) = 2"
  by code_simp

text \<open>
  C1, amended. A call that ends normally returns \<open>None\<close>. The total count of inserted
  rows is the counter \<open>total_inserted\<close>, printed by the last message: it is the number
  of rows the call added to the table, which are the rows of all chunks in order.
\<close>

theorem ingest_reports_total:
  assumes "ingest_electrical_csv E db system_id (Some f) timestamp_col col_mappings n = (Inr v, st')"
  shows "v = PyNone \<and>
     committed st' =
       db @ concat (map (rows_of_chunk E system_id (combined_map col_mappings)) (read_csv f n)) \<and>
     total_inserted st' = length (committed st') - length db \<and>
     out st' \<noteq> [] \<and> last (out st') = Finished (total_inserted st')"
proof -
  from assms obtain st2 where v: "v = PyNone"
    and l: "ingest_loop E system_id (combined_map col_mappings) (read_csv f n)
       \<lparr>committed = db, pending = [], conn_open = True, out = [], total_inserted = 0\<rparr>
     = (None, st2)"
    and st': "st' = st2\<lparr>conn_open := False, out := out st2 @ [Finished (total_inserted st2)]\<rparr>"
    by (rule ingest_success)
  from ingest_loop_ok [OF l] v st' show ?thesis by simp
qed

text \<open>
  The three-row sample in one chunk: two rows committed, one dropped, total 2 printed.
\<close>

theorem ingest_reports_total_witness:
  "ingest_electrical_csv sample_env [] 7 (Some sample_csv) ''timestamp'' None 1000 =
     (Inr PyNone,
      \<lparr>committed =
         [(7, ''2024-01-01 00:00:00'', Some (Finite 1.5), Some (Finite 230), None, None, None),
          (7, ''2024-01-01 00:10:00'', Some NaN, None, None, None, None)],
       pending = [], conn_open = False, out = [Dropped 1, Inserted 2 2, Finished 2],
       total_inserted = 2\<rparr>) \<and>
   last [Dropped 1, Inserted 2 2, Finished 2] = Finished (2 - length ([] :: db_row list))"
proof -
  have run: "ingest_electrical_csv sample_env [] 7 (Some sample_csv) ''timestamp'' None 1000 =
     (Inr PyNone,
      \<lparr>committed =
         [(7, ''2024-01-01 00:00:00'', Some (Finite 1.5), Some (Finite 230), None, None, None),
          (7, ''2024-01-01 00:10:00'', Some NaN, None, None, None, None)],
       pending = [], conn_open = False, out = [Dropped 1, Inserted 2 2, Finished 2],
       total_inserted = 2\<rparr>)"
    by code_simp
  from ingest_reports_total [OF run] run show ?thesis by simp
qed

text \<open>
  C2. Let the transactions of the chunks before chunk \<open>k\<close> succeed and the transaction
  of chunk \<open>k\<close> fail with the storage message \<open>m\<close> (at an \<open>INSERT\<close> or at the
  commit). Then the call raises the error wrapping \<open>m\<close>, the open transaction is empty
  (rolled back), and the table holds the rows it had before followed by the rows of the
  chunks before \<open>k\<close>: no row of chunk \<open>k\<close> or of a later chunk, and every earlier
  chunk still committed.
\<close>

theorem failed_chunk_rolled_back:
  assumes "pandas_available E" "0 < n"
    and "headers_ok (combined_map col_mappings) (columns f)"
    and "k < length (read_csv f n)"
    and "\<forall>j<k. txn_failure E
           (db @ concat (map (rows_of_chunk E system_id (combined_map col_mappings))
                          (take j (read_csv f n))))
           (rows_of_chunk E system_id (combined_map col_mappings) (read_csv f n ! j)) = None"
    and "txn_failure E
           (db @ concat (map (rows_of_chunk E system_id (combined_map col_mappings))
                          (take k (read_csv f n))))
           (rows_of_chunk E system_id (combined_map col_mappings) (read_csv f n ! k)) = Some m"
  shows "\<exists>st'. ingest_electrical_csv E db system_id (Some f) timestamp_col col_mappings n =
             (Inl (PersistenceError m), st') \<and>
     committed st' =
       db @ concat (map (rows_of_chunk E system_id (combined_map col_mappings))
                     (take k (read_csv f n))) \<and>
     pending st' = []"
proof -
  let ?st = "\<lparr>committed = db, pending = [], conn_open = True, out = [], total_inserted = 0\<rparr>"
  have h: "\<forall>ch \<in> set (read_csv f n). headers_ok (combined_map col_mappings) (columns ch)"
    using assms(3) by (simp add: read_csv_columns)
  have "\<exists>st'. ingest_loop E system_id (combined_map col_mappings) (read_csv f n) ?st =
        (Some (PersistenceError m), st') \<and>
      committed st' = committed ?st @
        concat (map (rows_of_chunk E system_id (combined_map col_mappings))
                 (take k (read_csv f n))) \<and>
      pending st' = [] \<and> conn_open st' = conn_open ?st"
    by (rule ingest_loop_fail [OF _ h assms(4)]) (use assms(5,6) in simp_all)
  then show ?thesis
    by (auto simp: ingest_after_connect [OF assms(1,2)])
qed

text \<open>
  Five rows in chunks of two, the second transaction refused at its second row: the two
  rows of the first chunk stay, the third row is rolled back.
\<close>

theorem failed_chunk_rolled_back_witness:
  "\<exists>st'. ingest_electrical_csv sample_env [] 7 (Some sample_csv5) ''timestamp'' None 2 =
           (Inl (PersistenceError ''constraint failed''), st') \<and>
     committed st' =
       [(7, ''2024-01-01 00:00:00'', Some (Finite 1), None, None, None, Some ''ok''),
        (7, ''2024-01-01 00:10:00'', Some (Finite 2), None, None, None, Some ''ok'')] \<and>
     pending st' = []"
proof -
  let ?cm = "combined_map None"
  let ?chunks = "read_csv sample_csv5 2"
  have p: "pandas_available sample_env" by code_simp
  have n: "0 < (2::nat)" by simp
  have h: "headers_ok ?cm (columns sample_csv5)" by code_simp
  have k: "1 < length ?chunks" by code_simp
  have first: "txn_failure sample_env
      ([] @ concat (map (rows_of_chunk sample_env 7 ?cm) (take 0 ?chunks)))
      (rows_of_chunk sample_env 7 ?cm (?chunks ! 0)) = None"
    by code_simp
  have before: "\<forall>j<1. txn_failure sample_env
      ([] @ concat (map (rows_of_chunk sample_env 7 ?cm) (take j ?chunks)))
      (rows_of_chunk sample_env 7 ?cm (?chunks ! j)) = None"
  proof (intro allI impI)
    fix j :: nat
    assume "j < 1"
    then have "j = 0" by simp
    then show "txn_failure sample_env
      ([] @ concat (map (rows_of_chunk sample_env 7 ?cm) (take j ?chunks)))
      (rows_of_chunk sample_env 7 ?cm (?chunks ! j)) = None"
      using first by (simp only:)
  qed
  have second: "txn_failure sample_env
      ([] @ concat (map (rows_of_chunk sample_env 7 ?cm) (take 1 ?chunks)))
      (rows_of_chunk sample_env 7 ?cm (?chunks ! 1)) = Some ''constraint failed''"
    by code_simp
  have rows: "[] @ concat (map (rows_of_chunk sample_env 7 ?cm) (take 1 ?chunks)) =
       [(7, ''2024-01-01 00:00:00'', Some (Finite 1), None, None, None, Some ''ok''),
        (7, ''2024-01-01 00:10:00'', Some (Finite 2), None, None, None, Some ''ok'')]"
    by code_simp
  from failed_chunk_rolled_back [OF p n h k before second, of "''timestamp''"]
  show ?thesis unfolding rows .
qed

text \<open>
  C3. After a call that ends normally, the rows added to the table are the rows of the
  chunks, and their number is the number of rows of the file minus the number of rows
  whose timestamp fails to parse; the dropped rows show up as the per-chunk counts
  printed, one message for each chunk that dropped a row. Dropping is never an error:
  with recognised headers and a storage that accepts every row the call ends normally,
  however many timestamps fail to parse.
\<close>

theorem persisted_rows_count:
  "(ingest_electrical_csv E db system_id (Some f) timestamp_col col_mappings n = (Inr v, st') \<longrightarrow>
      committed st' =
        db @ concat (map (rows_of_chunk E system_id (combined_map col_mappings)) (read_csv f n)) \<and>
      length (committed st') - length db =
        length (data f) - sum_list (map (unparseable E (combined_map col_mappings)) (read_csv f n)) \<and>
      sum_list (map (unparseable E (combined_map col_mappings)) (read_csv f n)) \<le> length (data f) \<and>
      dropped_counts (out st') =
        filter (\<lambda>k. 0 < k) (map (unparseable E (combined_map col_mappings)) (read_csv f n))) \<and>
   (pandas_available E \<and> 0 < n \<and> headers_ok (combined_map col_mappings) (columns f) \<and>
    (\<forall>c p r. db_insert E c p r = None) \<and> (\<forall>c p. db_commit E c p = None) \<longrightarrow>
      (\<exists>st. ingest_electrical_csv E db system_id (Some f) timestamp_col col_mappings n =
              (Inr PyNone, st)))"
proof (intro conjI impI)
  assume a: "pandas_available E \<and> 0 < n \<and> headers_ok (combined_map col_mappings) (columns f) \<and>
    (\<forall>c p r. db_insert E c p r = None) \<and> (\<forall>c p. db_commit E c p = None)"
  let ?st = "\<lparr>committed = db, pending = [], conn_open = True, out = [], total_inserted = 0\<rparr>"
  have h: "\<forall>ch \<in> set (read_csv f n). headers_ok (combined_map col_mappings) (columns ch)"
    using a by (simp add: read_csv_columns)
  have t: "\<forall>c rows. txn_failure E c rows = None"
    using a accepting_storage [of E] by blast
  have "\<exists>st'. ingest_loop E system_id (combined_map col_mappings) (read_csv f n) ?st = (None, st')"
    by (rule ingest_loop_accepting [OF _ h t]) simp
  then show "\<exists>st. ingest_electrical_csv E db system_id (Some f) timestamp_col col_mappings n =
              (Inr PyNone, st)"
    using a by (auto simp: ingest_after_connect)
next
  assume run: "ingest_electrical_csv E db system_id (Some f) timestamp_col col_mappings n = (Inr v, st')"
  then obtain st2 where n: "0 < n"
    and l: "ingest_loop E system_id (combined_map col_mappings) (read_csv f n)
       \<lparr>committed = db, pending = [], conn_open = True, out = [], total_inserted = 0\<rparr>
     = (None, st2)"
    and st': "st' = st2\<lparr>conn_open := False, out := out st2 @ [Finished (total_inserted st2)]\<rparr>"
    by (rule ingest_success)
  note ok = ingest_loop_ok [OF l]
  note s = sum_unparseable [OF n, of E system_id "combined_map col_mappings" f]
  show "committed st' =
        db @ concat (map (rows_of_chunk E system_id (combined_map col_mappings)) (read_csv f n))"
    using ok st' by simp
  show "length (committed st') - length db =
        length (data f) - sum_list (map (unparseable E (combined_map col_mappings)) (read_csv f n))"
    using ok st' s by simp
  show "sum_list (map (unparseable E (combined_map col_mappings)) (read_csv f n)) \<le> length (data f)"
    using s by simp
  show "dropped_counts (out st') =
        filter (\<lambda>k. 0 < k) (map (unparseable E (combined_map col_mappings)) (read_csv f n))"
    using ok st' by (simp add: dropped_counts_append) (simp add: dropped_counts_def)
qed

text \<open>
  The three-row sample in chunks of two: 3 - 1 rows persisted, one message with count 1.
\<close>

theorem persisted_rows_count_witness:
  "\<exists>st. ingest_electrical_csv accepting_env [] 7 (Some sample_csv) ''timestamp'' None 2 =
          (Inr PyNone, st) \<and>
     length (committed st) - length ([] :: db_row list) = 3 - 1 \<and>
     dropped_counts (out st) = [1]"
proof -
  let ?cm = "combined_map None"
  have pre: "pandas_available accepting_env \<and> 0 < (2::nat) \<and>
      headers_ok (combined_map None) (columns sample_csv) \<and>
      (\<forall>c p r. db_insert accepting_env c p r = None) \<and>
      (\<forall>c p. db_commit accepting_env c p = None)"
  proof (intro conjI)
    show "pandas_available accepting_env" by code_simp
    show "headers_ok (combined_map None) (columns sample_csv)" by code_simp
  qed (simp_all add: accepting_env_def sample_env_def)
  have u: "map (unparseable accepting_env ?cm) (read_csv sample_csv 2) = [1, 0]"
    by code_simp
  have d: "length (data sample_csv) = 3" by code_simp
  note t = persisted_rows_count [of accepting_env "[]" 7 sample_csv "''timestamp''" None 2]
  from t pre obtain st where run:
    "ingest_electrical_csv accepting_env [] 7 (Some sample_csv) ''timestamp'' None 2 = (Inr PyNone, st)"
    by blast
  from persisted_rows_count [of accepting_env "[]" 7 sample_csv "''timestamp''" None 2 PyNone st] run
  have "length (committed st) - length ([] :: db_row list) =
        length (data sample_csv) - sum_list (map (unparseable accepting_env ?cm) (read_csv sample_csv 2))"
    and "dropped_counts (out st) =
        filter (\<lambda>k. 0 < k) (map (unparseable accepting_env ?cm) (read_csv sample_csv 2))"
    by blast+
  then have "length (committed st) - length ([] :: db_row list) = 3 - 1 \<and>
     dropped_counts (out st) = [1]"
    unfolding u d by simp
  with run show ?thesis by blast
qed

text \<open>
  C4. When no header of the file resolves to \<open>timestamp\<close>, the call (with pandas
  present and a chunk size of at least 1) raises the schema error on the first chunk:
  the table is unchanged, no transaction is open and nothing was printed.
\<close>

theorem missing_timestamp_schema_error:
  assumes "pandas_available E" "0 < n"
    and "\<forall>h \<in> set (columns f). resolve (combined_map col_mappings) (strip h) \<noteq> Some ''timestamp''"
  shows "ingest_electrical_csv E db system_id (Some f) timestamp_col col_mappings n =
     (Inl SchemaError,
      \<lparr>committed = db, pending = [], conn_open = True, out = [], total_inserted = 0\<rparr>)"
proof -
  from read_csv_first [OF assms(2)] obtain ch chs where
    r: "read_csv f n = ch # chs" and c: "columns ch = columns f" by blast
  have "\<not> list_ex (\<lambda>(src, tgt). tgt = ''timestamp'')
      (col_map_existing (combined_map col_mappings) (map strip (columns ch)) [])"
    unfolding c by (rule no_timestamp_header [OF assms(3)])
  then show ?thesis
    by (simp add: ingest_after_connect [OF assms(1,2)] r process_chunk_schema)
qed

text \<open>
  A file with the headers \<open>fecha\<close> and \<open>power\<close>.
\<close>

theorem missing_timestamp_schema_error_witness:
  "ingest_electrical_csv sample_env [] 7 (Some sample_no_time) ''timestamp'' None 1000 =
     (Inl SchemaError,
      \<lparr>committed = [], pending = [], conn_open = True, out = [], total_inserted = 0\<rparr>)"
proof -
  have p: "pandas_available sample_env" by code_simp
  have n: "0 < (1000::nat)" by simp
  have h: "\<forall>h \<in> set (columns sample_no_time).
      resolve (combined_map None) (strip h) \<noteq> Some ''timestamp''"
    by code_simp
  from missing_timestamp_schema_error [OF p n h] show ?thesis .
qed

text \<open>
  What the resolution of a header computes: the lower-cased header is looked up among
  the keys of \<open>col_mappings\<close> as they are written, then among the keys of
  \<open>default_map\<close>. The branch for a header that equals a target name adds nothing,
  the six target names being keys of \<open>default_map\<close>.
\<close>

lemma target_names_default: "l \<in> target_names \<Longrightarrow> map_of default_map l = Some l"
  unfolding target_names_def default_map_def by (elim insertE emptyE) simp_all

lemma resolve_combined:
  "resolve (combined_map col_mappings) c =
     (case col_mappings of
        None \<Rightarrow> map_of default_map (lower c)
      | Some m \<Rightarrow>
          (case map_of m (lower c) of
             Some t \<Rightarrow> Some t
           | None \<Rightarrow> map_of default_map (lower c)))"
proof -
  have d: "(case map_of default_map l of Some t \<Rightarrow> Some t
            | None \<Rightarrow> if l \<in> target_names then Some l else None) = map_of default_map l" for l
    using target_names_default [of l] by (cases "map_of default_map l") auto
  show ?thesis
  proof (cases col_mappings)
    case None
    then show ?thesis by (simp add: resolve_def combined_map_def d)
  next
    case (Some m)
    show ?thesis
    proof (cases "map_of m (lower c)")
      case None
      then show ?thesis
        using Some d [of "lower c"] by (simp add: resolve_def combined_map_def map_add_def)
    next
      case (Some t)
      then show ?thesis
        using \<open>col_mappings = Some m\<close> by (auto simp: resolve_def combined_map_def map_add_def)
    qed
  qed
qed

text \<open>
  C6 on the code. The header is lower-cased before the lookup, the keys of the merged
  mapping are not. With the override \<open>{'Potencia': 'power_kw'}\<close> the header
  \<open>Potencia\<close> is not resolved, so the power column of the file is ignored and
  \<open>power_kw\<close> is absent in the stored row. With the override
  \<open>{'POWER': 'energy_kwh'}\<close> the header \<open>POWER\<close> still goes to the default target
  \<open>power_kw\<close>: the override does not win.
\<close>

theorem override_key_case_not_folded:
  "resolve (combined_map (Some [(''Potencia'', ''power_kw'')])) (strip ''Potencia'') = None \<and>
   col_map_existing (combined_map (Some [(''Potencia'', ''power_kw'')]))
     (map strip (columns sample_override)) [] = [(''timestamp'', ''timestamp'')] \<and>
   committed (snd (ingest_electrical_csv sample_env [] 7 (Some sample_override) ''timestamp''
                     (Some [(''Potencia'', ''power_kw'')]) 1000)) =
     [(7, ''2024-01-01 00:00:00'', None, None, None, None, None)] \<and>
   resolve (combined_map (Some [(''POWER'', ''energy_kwh'')])) (strip ''POWER'') = Some ''power_kw''"
  by code_simp

text \<open>
  C7 on the code. When the second transaction of the five-row sample fails, the call
  raises after the rollback and the connection is still open: \<open>conn.close()\<close> is
  reached on the normal path only.
\<close>

theorem connection_left_open_after_failure:
  "fst (ingest_electrical_csv sample_env [] 7 (Some sample_csv5) ''timestamp'' None 2) =
     Inl (PersistenceError ''constraint failed'') \<and>
   conn_open (snd (ingest_electrical_csv sample_env [] 7 (Some sample_csv5) ''timestamp'' None 2))"
  by code_simp

end
